theory Spec2Isabelle
  imports Complex_Main
begin

section \<open>Python strings and JSON values\<close>

text \<open>
  A Python \<open>str\<close> is a sequence of Unicode code points, so it is modelled as a list of
  natural numbers; \<open>str\<close> turns an ASCII literal into such a list.  The values that
  \<open>json.loads\<close> produces (\<open>None\<close>, \<open>bool\<close>, \<open>int\<close>, \<open>float\<close>, \<open>str\<close>, \<open>list\<close>,
  \<open>dict\<close> with string keys in insertion order) are the datatype \<open>json\<close>.  A float is kept
  as the decimal it was written as (mantissa and decimal exponent); binary rounding is
  outside the model.
\<close>

type_synonym ustr = "nat list"

definition str :: "string \<Rightarrow> ustr" where
  "str s = map of_char s"

datatype pyfloat = Dec int int | Infty bool | NaN

datatype json =
    JNull
  | JBool bool
  | JInt int
  | JFloat pyfloat
  | JStr ustr
  | JArr "json list"
  | JObj "(ustr \<times> json) list"

type_synonym pydict = "(ustr \<times> json) list"

section \<open>The library function \<open>json.loads\<close>\<close>

text \<open>
  \<open>json.loads\<close> is the decoder of Python's standard library: a lexer for strings, numbers
  and literals, and the JSON grammar over the tokens.  \<open>None\<close> stands for any exception the
  decoder raises.
\<close>

datatype token =
  TLBrace | TRBrace | TLBrack | TRBrack | TComma | TColon | TStr ustr | TScalar json

definition is_digit :: "nat \<Rightarrow> bool" where
  "is_digit c = (48 \<le> c \<and> c \<le> 57)"

definition hex_val :: "nat \<Rightarrow> nat option" where
  "hex_val c =
     (if 48 \<le> c \<and> c \<le> 57 then Some (c - 48)
      else if 97 \<le> c \<and> c \<le> 102 then Some (c - 87)
      else if 65 \<le> c \<and> c \<le> 70 then Some (c - 55)
      else None)"

definition hex4 :: "nat \<Rightarrow> nat \<Rightarrow> nat \<Rightarrow> nat \<Rightarrow> nat option" where
  "hex4 a b c d =
     (case (hex_val a, hex_val b, hex_val c, hex_val d) of
        (Some w, Some x, Some y, Some z) \<Rightarrow> Some (((w * 16 + x) * 16 + y) * 16 + z)
      | _ \<Rightarrow> None)"

definition unescape :: "nat \<Rightarrow> nat option" where
  "unescape c =
     (if c = 34 then Some 34 else if c = 92 then Some 92 else if c = 47 then Some 47
      else if c = 98 then Some 8 else if c = 102 then Some 12 else if c = 110 then Some 10
      else if c = 114 then Some 13 else if c = 116 then Some 9 else None)"

text \<open>A high surrogate escape followed by a low surrogate escape is one code point.\<close>

definition surrogate_pair :: "nat \<Rightarrow> ustr \<Rightarrow> (nat \<times> ustr) option" where
  "surrogate_pair u r =
     (if 55296 \<le> u \<and> u \<le> 56319 then
        (case r of
           bs # lu # a # b # c # d # r' \<Rightarrow>
             (if bs = 92 \<and> lu = 117 then
                (case hex4 a b c d of
                   None \<Rightarrow> None
                 | Some u2 \<Rightarrow>
                     (if 56320 \<le> u2 \<and> u2 \<le> 57343
                      then Some (65536 + (u - 55296) * 1024 + (u2 - 56320), r')
                      else None))
              else None)
         | _ \<Rightarrow> None)
      else None)"

lemma surrogate_pair_shorter:
  "surrogate_pair u r = Some (u', r') \<Longrightarrow> length r' < length r"
  by (auto simp: surrogate_pair_def split: if_splits list.splits option.splits)

text \<open>
  The body of a string, after its opening quote: up to the closing quote, with the
  escapes decoded; a raw control character, an unknown escape and a missing closing quote
  are errors.
\<close>

function scan_string :: "ustr \<Rightarrow> ustr \<Rightarrow> (ustr \<times> ustr) option" where
  "scan_string acc [] = None"
| "scan_string acc (c # cs) =
     (if c = 34 then Some (rev acc, cs)
      else if c < 32 then None
      else if c \<noteq> 92 then scan_string (c # acc) cs
      else (case cs of
              [] \<Rightarrow> None
            | e # es \<Rightarrow>
                (if e \<noteq> 117 then
                   (case unescape e of None \<Rightarrow> None | Some u \<Rightarrow> scan_string (u # acc) es)
                 else (case es of
                         a # b # c' # d # r \<Rightarrow>
                           (case hex4 a b c' d of
                              None \<Rightarrow> None
                            | Some u \<Rightarrow>
                                (case surrogate_pair u r of
                                   Some (u', r') \<Rightarrow> scan_string (u' # acc) r'
                                 | None \<Rightarrow> scan_string (u # acc) r))
                       | _ \<Rightarrow> None))))"
  by pat_completeness auto
termination
  by (relation "measure (\<lambda>(acc, cs). length cs)") (auto dest: surrogate_pair_shorter)

fun digits_val :: "nat \<Rightarrow> ustr \<Rightarrow> nat" where
  "digits_val acc [] = acc"
| "digits_val acc (c # cs) = digits_val (acc * 10 + (c - 48)) cs"

text \<open>
  A number is \<open>-?(0|[1-9][0-9]*)(\.[0-9]+)?([eE][-+]?[0-9]+)?\<close>, matched greedily part by
  part; it is an \<open>int\<close> when it has neither fraction nor exponent.
\<close>

definition scan_int :: "ustr \<Rightarrow> (ustr \<times> ustr) option" where
  "scan_int cs =
     (case cs of
        [] \<Rightarrow> None
      | d # r \<Rightarrow>
          (if d = 48 then Some ([d], r)
           else if is_digit d then Some (takeWhile is_digit cs, dropWhile is_digit cs)
           else None))"

definition scan_frac :: "ustr \<Rightarrow> (ustr \<times> ustr) option" where
  "scan_frac cs =
     (case cs of
        dot # d # r \<Rightarrow>
          (if dot = 46 \<and> is_digit d
           then Some (takeWhile is_digit (d # r), dropWhile is_digit (d # r))
           else None)
      | _ \<Rightarrow> None)"

definition scan_exp :: "ustr \<Rightarrow> (int \<times> ustr) option" where
  "scan_exp cs =
     (case cs of
        [] \<Rightarrow> None
      | e # r \<Rightarrow>
          (if e = 101 \<or> e = 69 then
             (case r of
                [] \<Rightarrow> None
              | s # r' \<Rightarrow>
                  (if is_digit s then
                     Some (int (digits_val 0 (takeWhile is_digit r)), dropWhile is_digit r)
                   else if (s = 43 \<or> s = 45) \<and> r' \<noteq> [] \<and> is_digit (hd r') then
                     Some ((if s = 45 then - 1 else 1) * int (digits_val 0 (takeWhile is_digit r')),
                           dropWhile is_digit r')
                   else None))
           else None))"

definition scan_number :: "ustr \<Rightarrow> (json \<times> ustr) option" where
  "scan_number cs =
     (let neg = (cs \<noteq> [] \<and> hd cs = 45);
          sgn = (if neg then - 1 else 1 :: int)
      in case scan_int (if neg then tl cs else cs) of
           None \<Rightarrow> None
         | Some (ds, r1) \<Rightarrow>
             (case scan_frac r1 of
                None \<Rightarrow>
                  (case scan_exp r1 of
                     None \<Rightarrow> Some (JInt (sgn * int (digits_val 0 ds)), r1)
                   | Some (e, r3) \<Rightarrow> Some (JFloat (Dec (sgn * int (digits_val 0 ds)) e), r3))
              | Some (fs, r2) \<Rightarrow>
                  (case scan_exp r2 of
                     None \<Rightarrow>
                       Some (JFloat (Dec (sgn * int (digits_val 0 (ds @ fs))) (- int (length fs))),
                             r2)
                   | Some (e, r3) \<Rightarrow>
                       Some (JFloat (Dec (sgn * int (digits_val 0 (ds @ fs)))
                                         (e - int (length fs))), r3))))"

definition strip_prefix :: "ustr \<Rightarrow> ustr \<Rightarrow> ustr option" where
  "strip_prefix p cs = (if take (length p) cs = p then Some (drop (length p) cs) else None)"

definition scan_scalar :: "ustr \<Rightarrow> (json \<times> ustr) option" where
  "scan_scalar cs =
     (case strip_prefix (str ''null'') cs of Some r \<Rightarrow> Some (JNull, r) | None \<Rightarrow>
      case strip_prefix (str ''true'') cs of Some r \<Rightarrow> Some (JBool True, r) | None \<Rightarrow>
      case strip_prefix (str ''false'') cs of Some r \<Rightarrow> Some (JBool False, r) | None \<Rightarrow>
      case scan_number cs of Some vr \<Rightarrow> Some vr | None \<Rightarrow>
      case strip_prefix (str ''NaN'') cs of Some r \<Rightarrow> Some (JFloat NaN, r) | None \<Rightarrow>
      case strip_prefix (str ''Infinity'') cs of Some r \<Rightarrow> Some (JFloat (Infty False), r) | None \<Rightarrow>
      case strip_prefix (str ''-Infinity'') cs of Some r \<Rightarrow> Some (JFloat (Infty True), r) | None \<Rightarrow>
      None)"

definition json_ws :: "nat \<Rightarrow> bool" where
  "json_ws c = (c = 32 \<or> c = 9 \<or> c = 10 \<or> c = 13)"

definition punct :: "nat \<Rightarrow> token option" where
  "punct c =
     (if c = 123 then Some TLBrace else if c = 125 then Some TRBrace
      else if c = 91 then Some TLBrack else if c = 93 then Some TRBrack
      else if c = 44 then Some TComma else if c = 58 then Some TColon else None)"

lemma scan_string_shorter: "scan_string acc cs = Some (s, r) \<Longrightarrow> length r < length cs"
proof (induction acc cs arbitrary: s r rule: scan_string.induct)
  case (1 acc)
  then show ?case by simp
next
  case (2 acc c cs)
  show ?case
  proof (cases "c = 34 \<or> c < 32")
    case True
    with "2.prems" show ?thesis by (auto split: if_splits)
  next
    case False
    note nq = False
    show ?thesis
    proof (cases "c = 92")
      case False
      with nq "2.prems" have "scan_string (c # acc) cs = Some (s, r)" by simp
      with "2.IH"(1) nq False have "length r < length cs" by simp
      then show ?thesis by simp
    next
      case True
      note bs = True
      show ?thesis
      proof (cases cs)
        case Nil
        with nq bs "2.prems" show ?thesis by simp
      next
        case (Cons e es)
        show ?thesis
        proof (cases "e = 117")
          case False
          with nq bs Cons "2.prems" obtain u where
            u: "unescape e = Some u" "scan_string (u # acc) es = Some (s, r)"
            by (auto split: option.splits)
          with "2.IH"(2) nq bs Cons False have "length r < length es" by simp
          with Cons show ?thesis by simp
        next
          case True
          with nq bs Cons "2.prems" obtain a b c' d r0 u where
            es: "es = a # b # c' # d # r0" and h: "hex4 a b c' d = Some u"
            by (auto split: list.splits option.splits)
          show ?thesis
          proof (cases "surrogate_pair u r0")
            case None
            with nq bs Cons True es h "2.prems" have "scan_string (u # acc) r0 = Some (s, r)"
              by simp
            with "2.IH"(3) nq bs Cons True es h None have "length r < length r0" by simp
            with Cons es show ?thesis by simp
          next
            case (Some p)
            obtain u' r' where p: "p = (u', r')" by (cases p)
            with nq bs Cons True es h Some "2.prems"
            have "scan_string (u' # acc) r' = Some (s, r)" by simp
            with "2.IH"(4) nq bs Cons True es h Some p have "length r < length r'" by simp
            moreover from Some p have "length r' < length r0"
              by (auto dest: surrogate_pair_shorter)
            ultimately show ?thesis using Cons es by simp
          qed
        qed
      qed
    qed
  qed
qed

lemma strip_prefix_shorter:
  assumes "strip_prefix p cs = Some r" and "p \<noteq> []"
  shows "length r < length cs"
proof -
  from assms(1) have t: "take (length p) cs = p" and r: "r = drop (length p) cs"
    by (auto simp: strip_prefix_def split: if_splits)
  from t have "length p = min (length cs) (length p)" by (metis length_take)
  then have "length p \<le> length cs" by simp
  with r assms(2) show ?thesis by (cases p) auto
qed

lemma scan_int_shorter: "scan_int cs = Some (ds, r) \<Longrightarrow> length r < length cs"
  by (auto simp: scan_int_def less_Suc_eq_le length_dropWhile_le split: list.splits if_splits)

lemma scan_frac_shorter: "scan_frac cs = Some (ds, r) \<Longrightarrow> length r < length cs"
  by (auto simp: scan_frac_def less_Suc_eq_le le_SucI length_dropWhile_le
           split: list.splits if_splits)

lemma scan_exp_shorter: "scan_exp cs = Some (e, r) \<Longrightarrow> length r < length cs"
  by (auto simp: scan_exp_def less_Suc_eq_le le_SucI length_dropWhile_le
           split: list.splits if_splits)

lemma scan_number_shorter:
  assumes "scan_number cs = Some (v, r)"
  shows "length r < length cs"
proof -
  define cs0 where "cs0 = (if cs \<noteq> [] \<and> hd cs = 45 then tl cs else cs)"
  have le0: "length cs0 \<le> length cs" by (simp add: cs0_def)
  from assms obtain ds r1 where i: "scan_int cs0 = Some (ds, r1)"
    by (auto simp: scan_number_def Let_def cs0_def split: option.splits)
  then have l1: "length r1 < length cs0" by (rule scan_int_shorter)
  have "length r \<le> length r1"
  proof (cases "scan_frac r1")
    case None
    with assms i show ?thesis
      by (auto simp: scan_number_def Let_def cs0_def split: option.splits if_splits
               dest!: scan_exp_shorter)
  next
    case (Some p)
    obtain fs r2 where p: "p = (fs, r2)" by (cases p)
    with Some have "length r2 < length r1" by (auto dest: scan_frac_shorter)
    moreover from assms i Some p have "length r \<le> length r2"
      by (auto simp: scan_number_def Let_def cs0_def split: option.splits if_splits
               dest!: scan_exp_shorter)
    ultimately show ?thesis by simp
  qed
  with l1 le0 show ?thesis by simp
qed

lemma scan_scalar_shorter:
  assumes "scan_scalar cs = Some (v, r)"
  shows "length r < length cs"
proof -
  have ne: "str ''null'' \<noteq> []" "str ''true'' \<noteq> []" "str ''false'' \<noteq> []"
    "str ''NaN'' \<noteq> []" "str ''Infinity'' \<noteq> []" "str ''-Infinity'' \<noteq> []"
    by (simp_all add: str_def)
  from assms show ?thesis
    unfolding scan_scalar_def
    by (auto split: option.splits dest: strip_prefix_shorter [OF _ ne(1)]
          strip_prefix_shorter [OF _ ne(2)] strip_prefix_shorter [OF _ ne(3)]
          strip_prefix_shorter [OF _ ne(4)] strip_prefix_shorter [OF _ ne(5)]
          strip_prefix_shorter [OF _ ne(6)] scan_number_shorter)
qed

function tokenize :: "ustr \<Rightarrow> token list option" where
  "tokenize [] = Some []"
| "tokenize (c # cs) =
     (if json_ws c then tokenize cs
      else case punct c of
        Some t \<Rightarrow> map_option (Cons t) (tokenize cs)
      | None \<Rightarrow>
          (if c = 34 then
             (case scan_string [] cs of
                None \<Rightarrow> None
              | Some (s, r) \<Rightarrow> map_option (Cons (TStr s)) (tokenize r))
           else
             (case scan_scalar (c # cs) of
                None \<Rightarrow> None
              | Some (v, r) \<Rightarrow> map_option (Cons (TScalar v)) (tokenize r))))"
  by pat_completeness auto
termination
  by (relation "measure length") (auto dest: scan_string_shorter scan_scalar_shorter)

text \<open>
  The grammar runs as a pushdown automaton over the tokens: a frame per open array
  (its elements so far, newest first) or open object (its items so far and the key that
  waits for its value).  A repeated key keeps its first position and takes the last
  value, as building a \<open>dict\<close> from the pairs does.
\<close>

datatype frame = FArr "json list" | FObj pydict ustr

datatype mode = MValue | MArrStart | MObjStart | MKey pydict | MColon | MAfter json

fun dict_set :: "ustr \<Rightarrow> json \<Rightarrow> pydict \<Rightarrow> pydict" where
  "dict_set k v [] = [(k, v)]"
| "dict_set k v ((k', v') # ps) =
     (if k = k' then (k, v) # ps else (k', v') # dict_set k v ps)"

fun step_value :: "frame list \<Rightarrow> token \<Rightarrow> (mode \<times> frame list) option" where
  "step_value st (TStr s) = Some (MAfter (JStr s), st)"
| "step_value st (TScalar v) = Some (MAfter v, st)"
| "step_value st TLBrack = Some (MArrStart, st)"
| "step_value st TLBrace = Some (MObjStart, st)"
| "step_value st _ = None"

fun step :: "mode \<Rightarrow> frame list \<Rightarrow> token \<Rightarrow> (mode \<times> frame list) option" where
  "step MValue st t = step_value st t"
| "step MArrStart st TRBrack = Some (MAfter (JArr []), st)"
| "step MArrStart st t = step_value (FArr [] # st) t"
| "step MObjStart st TRBrace = Some (MAfter (JObj []), st)"
| "step MObjStart st (TStr k) = Some (MColon, FObj [] k # st)"
| "step (MKey ps) st (TStr k) = Some (MColon, FObj ps k # st)"
| "step MColon st TColon = Some (MValue, st)"
| "step (MAfter v) (FArr acc # st) TComma = Some (MValue, FArr (v # acc) # st)"
| "step (MAfter v) (FArr acc # st) TRBrack = Some (MAfter (JArr (rev (v # acc))), st)"
| "step (MAfter v) (FObj ps k # st) TComma = Some (MKey (dict_set k v ps), st)"
| "step (MAfter v) (FObj ps k # st) TRBrace = Some (MAfter (JObj (dict_set k v ps)), st)"
| "step _ _ _ = None"

fun parse_tokens :: "mode \<Rightarrow> frame list \<Rightarrow> token list \<Rightarrow> json option" where
  "parse_tokens m st [] = (case (m, st) of (MAfter v, []) \<Rightarrow> Some v | _ \<Rightarrow> None)"
| "parse_tokens m st (t # ts) =
     (case step m st t of None \<Rightarrow> None | Some (m', st') \<Rightarrow> parse_tokens m' st' ts)"

definition json_loads :: "ustr \<Rightarrow> json option" where
  "json_loads s = (case tokenize s of None \<Rightarrow> None | Some ts \<Rightarrow> parse_tokens MValue [] ts)"

section \<open>String methods\<close>

text \<open>\<open>str.strip()\<close> removes the code points for which \<open>str.isspace()\<close> holds.\<close>

definition py_space :: "nat \<Rightarrow> bool" where
  "py_space c =
     ((9 \<le> c \<and> c \<le> 13) \<or> (28 \<le> c \<and> c \<le> 32) \<or> c = 133 \<or> c = 160 \<or> c = 5760
      \<or> (8192 \<le> c \<and> c \<le> 8202) \<or> c = 8232 \<or> c = 8233 \<or> c = 8239 \<or> c = 8287
      \<or> c = 12288)"

definition py_strip :: "ustr \<Rightarrow> ustr" where
  "py_strip s = rev (dropWhile py_space (rev (dropWhile py_space s)))"

text \<open>\<open>txt.find(c)\<close> for a single character: the first index, or \<open>-1\<close>.\<close>

fun py_find :: "nat \<Rightarrow> ustr \<Rightarrow> int" where
  "py_find c [] = - 1"
| "py_find c (x # xs) =
     (if x = c then 0 else (let i = py_find c xs in if i = - 1 then - 1 else i + 1))"

text \<open>\<open>txt[a:b]\<close> for \<open>0 \<le> a \<le> b \<le> len(txt)\<close>.\<close>

definition py_slice :: "ustr \<Rightarrow> nat \<Rightarrow> nat \<Rightarrow> ustr" where
  "py_slice s a b = take (b - a) (drop a s)"

section \<open>The response extractor \<open>clean_json\<close>\<close>

text \<open>
  \<open>first_bracket\<close> is \<open>min([i for i in [txt.find("{"), txt.find("[")] if i != -1],
  default=-1)\<close>; \<open>scan_ends txt first e\<close> is the loop \<open>for end in range(e, first, -1)\<close>,
  which returns the first snippet \<open>txt[first:end]\<close> that \<open>json.loads\<close> accepts, and
  \<open>None\<close> when the loop runs out.
\<close>

definition first_bracket :: "ustr \<Rightarrow> int" where
  "first_bracket txt =
     (case filter (\<lambda>i. i \<noteq> - 1) [py_find 123 txt, py_find 91 txt] of
        [] \<Rightarrow> - 1
      | i # is \<Rightarrow> fold min is i)"

function scan_ends :: "ustr \<Rightarrow> nat \<Rightarrow> nat \<Rightarrow> ustr option" where
  "scan_ends txt first e =
     (if first < e then
        (let snippet = py_slice txt first e
         in if json_loads snippet \<noteq> None then Some snippet else scan_ends txt first (e - 1))
      else None)"
  by pat_completeness auto
termination
  by (relation "measure (\<lambda>(txt, first, e). e)") auto

declare scan_ends.simps [simp del]

definition clean_json :: "ustr \<Rightarrow> ustr" where
  "clean_json raw =
     (let txt = py_strip raw in
      if json_loads txt \<noteq> None then txt
      else let first = first_bracket txt in
        if first = - 1 then txt
        else (case scan_ends txt (nat first) (length txt) of
                Some snippet \<Rightarrow> snippet
              | None \<Rightarrow> txt))"

section \<open>Truth values, hashing and equality of Python values\<close>

text \<open>
  \<open>if x:\<close> tests the truth value of \<open>x\<close>: \<open>None\<close>, \<open>False\<close>, a zero number and an empty
  string, list or dict are false, everything else is true.
\<close>

fun truthy :: "json \<Rightarrow> bool" where
  "truthy JNull = False"
| "truthy (JBool b) = b"
| "truthy (JInt i) = (i \<noteq> 0)"
| "truthy (JFloat (Dec m e)) = (m \<noteq> 0)"
| "truthy (JFloat (Infty b)) = True"
| "truthy (JFloat NaN) = True"
| "truthy (JStr s) = (s \<noteq> [])"
| "truthy (JArr xs) = (xs \<noteq> [])"
| "truthy (JObj ps) = (ps \<noteq> [])"

text \<open>Lists and dicts cannot be members of a \<open>set\<close>: hashing them raises \<open>TypeError\<close>.\<close>

fun hashable :: "json \<Rightarrow> bool" where
  "hashable (JArr xs) = False"
| "hashable (JObj ps) = False"
| "hashable v = True"

text \<open>
  \<open>==\<close> on hashable values: numbers (\<open>bool\<close> counts as 0 or 1) compare by value across
  their types, \<open>NaN\<close> equals nothing, strings equal strings, \<open>None\<close> equals \<open>None\<close>.
\<close>

fun num_val :: "json \<Rightarrow> (int \<times> int) option" where
  "num_val (JBool b) = Some (if b then 1 else 0, 0)"
| "num_val (JInt i) = Some (i, 0)"
| "num_val (JFloat (Dec m e)) = Some (m, e)"
| "num_val v = None"

definition dec_eq :: "int \<times> int \<Rightarrow> int \<times> int \<Rightarrow> bool" where
  "dec_eq x y =
     (let e = min (snd x) (snd y)
      in fst x * 10 ^ nat (snd x - e) = fst y * 10 ^ nat (snd y - e))"

definition py_eq :: "json \<Rightarrow> json \<Rightarrow> bool" where
  "py_eq a b =
     (case (num_val a, num_val b) of
        (Some x, Some y) \<Rightarrow> dec_eq x y
      | (None, None) \<Rightarrow> a = b \<and> a \<noteq> JFloat NaN
      | _ \<Rightarrow> False)"

definition py_in :: "json \<Rightarrow> json list \<Rightarrow> bool" where
  "py_in x ys = list_ex (py_eq x) ys"

text \<open>\<open>d.get(k, default)\<close> and \<open>d[k]\<close> (which is \<open>None\<close> here where Python raises \<open>KeyError\<close>).\<close>

definition dict_get :: "pydict \<Rightarrow> ustr \<Rightarrow> json \<Rightarrow> json" where
  "dict_get d k dflt = (case map_of d k of None \<Rightarrow> dflt | Some v \<Rightarrow> v)"

definition dict_item :: "pydict \<Rightarrow> ustr \<Rightarrow> json option" where
  "dict_item d k = map_of d k"

datatype error = KeyError | TypeError | AttributeError | ValueError | JSONDecodeError

section \<open>The library function \<open>json.dumps\<close>\<close>

function dec_nat :: "nat \<Rightarrow> ustr" where
  "dec_nat n = (if n < 10 then [48 + n] else dec_nat (n div 10) @ [48 + n mod 10])"
  by pat_completeness auto
termination
  by (relation "measure id") auto

declare dec_nat.simps [simp del]

definition dec_int :: "int \<Rightarrow> ustr" where
  "dec_int i = (if i < 0 then 45 # dec_nat (nat (- i)) else dec_nat (nat i))"

definition hex_digit :: "nat \<Rightarrow> nat" where
  "hex_digit d = (if d < 10 then 48 + d else 87 + d)"

definition u_escape :: "nat \<Rightarrow> ustr" where
  "u_escape n =
     [92, 117, hex_digit (n div 4096 mod 16), hex_digit (n div 256 mod 16),
      hex_digit (n div 16 mod 16), hex_digit (n mod 16)]"

definition escape_char :: "nat \<Rightarrow> ustr" where
  "escape_char c =
     (if c = 34 then [92, 34] else if c = 92 then [92, 92]
      else if c = 10 then [92, 110] else if c = 13 then [92, 114]
      else if c = 9 then [92, 116] else if c = 8 then [92, 98]
      else if c = 12 then [92, 102]
      else if 32 \<le> c \<and> c \<le> 126 then [c]
      else if c < 65536 then u_escape c
      else u_escape (55296 + (c - 65536) div 1024 mod 1024)
           @ u_escape (56320 + (c - 65536) mod 1024))"

definition dumps_str :: "ustr \<Rightarrow> ustr" where
  "dumps_str s = 34 # concat (map escape_char s) @ [34]"

fun join :: "ustr \<Rightarrow> ustr list \<Rightarrow> ustr" where
  "join sep [] = []"
| "join sep [x] = x"
| "join sep (x # y # ys) = x @ sep @ join sep (y # ys)"

text \<open>
  \<open>json.dumps\<close> with its default arguments: items separated by \<open>", "\<close>, keys from values
  by \<open>": "\<close>, every character outside printable ASCII escaped.  The digits Python prints
  for a float depend on its binary rounding; here a finite float is printed as mantissa
  and exponent.
\<close>

fun json_dumps :: "json \<Rightarrow> ustr" where
  "json_dumps JNull = str ''null''"
| "json_dumps (JBool b) = (if b then str ''true'' else str ''false'')"
| "json_dumps (JInt i) = dec_int i"
| "json_dumps (JFloat (Dec m e)) = dec_int m @ [101] @ dec_int e"
| "json_dumps (JFloat (Infty b)) = (if b then str ''-Infinity'' else str ''Infinity'')"
| "json_dumps (JFloat NaN) = str ''NaN''"
| "json_dumps (JStr s) = dumps_str s"
| "json_dumps (JArr xs) = 91 # join (str '', '') (map json_dumps xs) @ [93]"
| "json_dumps (JObj ps) =
     123 # join (str '', '') (map (\<lambda>(k, v). dumps_str k @ str '': '' @ json_dumps v) ps) @ [125]"

section \<open>Paths and files\<close>

text \<open>
  A \<open>pathlib.Path\<close> is its parent directory and its final component; \<open>stem\<close> and
  \<open>suffix\<close> split the final component at its last dot, unless that dot is the first or
  the last character.  The file system maps a path to the text of the file there.
\<close>

record path =
  parent :: ustr
  name :: ustr

fun py_rfind :: "nat \<Rightarrow> ustr \<Rightarrow> int" where
  "py_rfind c [] = - 1"
| "py_rfind c (x # xs) =
     (let i = py_rfind c xs in if i \<noteq> - 1 then i + 1 else if x = c then 0 else - 1)"

definition suffix :: "path \<Rightarrow> ustr" where
  "suffix p =
     (let i = py_rfind 46 (name p)
      in if 0 < i \<and> i < int (length (name p)) - 1 then drop (nat i) (name p) else [])"

definition stem :: "path \<Rightarrow> ustr" where
  "stem p =
     (let i = py_rfind 46 (name p)
      in if 0 < i \<and> i < int (length (name p)) - 1 then take (nat i) (name p) else name p)"

definition get_output_filename :: "path \<Rightarrow> nat \<Rightarrow> path" where
  "get_output_filename base_path file_index =
     (if file_index = 0 then base_path
      else \<lparr>parent = parent base_path,
            name = stem base_path @ str ''_part'' @ dec_nat (file_index + 1) @ suffix base_path\<rparr>)"

type_synonym fs = "path \<Rightarrow> ustr option"

text \<open>\<open>open(p, "a")\<close> followed by \<open>write(txt)\<close>: the file is created when it is missing.\<close>

definition append_file :: "fs \<Rightarrow> path \<Rightarrow> ustr \<Rightarrow> fs" where
  "append_file f p txt = f(p \<mapsto> (case f p of None \<Rightarrow> txt | Some old \<Rightarrow> old @ txt))"

text \<open>
  Reading a text file line by line: a line ends at \<open>\n\<close>, \<open>\r\<close> or \<open>\r\n\<close>, and a last
  line without terminator counts when it is not empty.  The lines are given without their
  terminator, which \<open>strip\<close> would remove anyway.
\<close>

fun py_lines :: "ustr \<Rightarrow> ustr \<Rightarrow> ustr list" where
  "py_lines cur [] = (if cur = [] then [] else [rev cur])"
| "py_lines cur (c # cs) =
     (if c = 10 then rev cur # py_lines [] cs
      else if c = 13 then rev cur # py_lines [] (if cs \<noteq> [] \<and> hd cs = 10 then tl cs else cs)
      else py_lines (c # cur) cs)"

section \<open>Retry with backoff\<close>

text \<open>
  The three tagging functions share one loop: \<open>for attempt in range(retries)\<close>, the remote
  call and the parsing of its answer inside \<open>try\<close>, and in \<open>except Exception\<close> a warning on
  \<open>stderr\<close> followed by a sleep.  \<open>att k\<close> is what the body of \<open>try\<close> does in round \<open>k\<close>: it
  returns a value or raises (\<open>None\<close>).  \<open>rnd k\<close> is the value \<open>random.random()\<close> takes in round
  \<open>k\<close>.  \<open>named\<close> says whether the warning can be formatted: the sequential function
  formats \<open>card['name']\<close> there, which raises \<open>KeyError\<close> inside the handler when the card
  has no name.  The effects are counted: rounds started, warnings written (with the round
  number they print) and the durations slept; durations are exact real numbers.
\<close>

record effects =
  attempts :: nat
  warnings :: "nat list"
  sleeps :: "real list"

definition no_effects :: effects where
  "no_effects = \<lparr>attempts = 0, warnings = [], sleeps = []\<rparr>"

definition backoff :: "nat \<Rightarrow> real \<Rightarrow> real" where
  "backoff attempt r = min (1.5 ^ attempt + r * 0.2) 30"

fun retry_loop ::
  "(nat \<Rightarrow> json option) \<Rightarrow> (nat \<Rightarrow> real) \<Rightarrow> bool \<Rightarrow> json \<Rightarrow> nat \<Rightarrow> nat \<Rightarrow> effects
     \<Rightarrow> (error + json) \<times> effects" where
  "retry_loop att rnd named dflt attempt 0 fx = (Inr dflt, fx)"
| "retry_loop att rnd named dflt attempt (Suc n) fx =
     (let fx1 = fx\<lparr>attempts := attempts fx + 1\<rparr> in
      case att attempt of
        Some v \<Rightarrow> (Inr v, fx1)
      | None \<Rightarrow>
          if named then
            retry_loop att rnd named dflt (attempt + 1) n
              (fx1\<lparr>warnings := warnings fx1 @ [attempt + 1],
                   sleeps := sleeps fx1 @ [backoff attempt (rnd attempt)]\<rparr>)
          else (Inl KeyError, fx1))"

text \<open>
  The answer of the remote service in one round is its text, or \<open>None\<close> when the call
  raises.  A single-card round returns \<open>json.loads(clean_json(content))\<close>.
\<close>

definition single_attempt :: "ustr option \<Rightarrow> json option" where
  "single_attempt resp =
     (case resp of None \<Rightarrow> None | Some content \<Rightarrow> json_loads (clean_json content))"

definition tag_card_sync ::
  "(nat \<Rightarrow> ustr option) \<Rightarrow> (nat \<Rightarrow> real) \<Rightarrow> pydict \<Rightarrow> int \<Rightarrow> (error + json) \<times> effects" where
  "tag_card_sync client rnd crd retries =
     retry_loop (\<lambda>k. single_attempt (client k)) rnd (dict_item crd (str ''name'') \<noteq> None)
       JNull 0 (nat retries) no_effects"

text \<open>
  The asynchronous function formats \<open>card['name']\<close>, \<open>card['oracle_id']\<close> and
  \<open>card['oracle_text']\<close> into the prompt before the loop.
\<close>

definition has_keys :: "pydict \<Rightarrow> bool" where
  "has_keys crd =
     (dict_item crd (str ''name'') \<noteq> None \<and> dict_item crd (str ''oracle_id'') \<noteq> None
      \<and> dict_item crd (str ''oracle_text'') \<noteq> None)"

definition tag_card_async ::
  "(nat \<Rightarrow> ustr option) \<Rightarrow> (nat \<Rightarrow> real) \<Rightarrow> pydict \<Rightarrow> int \<Rightarrow> (error + json) \<times> effects" where
  "tag_card_async client rnd crd retries =
     (if has_keys crd then
        retry_loop (\<lambda>k. single_attempt (client k)) rnd True JNull 0 (nat retries) no_effects
      else (Inl KeyError, no_effects))"

text \<open>
  A batch round returns the parsed answer when it is a list, \<open>arr.get("results", [])\<close>
  when it is a dict, and raises \<open>AttributeError\<close> on anything else; when the rounds run
  out the function returns \<open>[None] * len(cards)\<close>.
\<close>

definition batch_attempt :: "ustr option \<Rightarrow> json option" where
  "batch_attempt resp =
     (case resp of
        None \<Rightarrow> None
      | Some content \<Rightarrow>
          (case json_loads (clean_json content) of
             None \<Rightarrow> None
           | Some (JArr xs) \<Rightarrow> Some (JArr xs)
           | Some (JObj d) \<Rightarrow> Some (dict_get d (str ''results'') (JArr []))
           | Some _ \<Rightarrow> None))"

definition tag_cards_batch_sync ::
  "(nat \<Rightarrow> ustr option) \<Rightarrow> (nat \<Rightarrow> real) \<Rightarrow> pydict list \<Rightarrow> int \<Rightarrow> (error + json) \<times> effects" where
  "tag_cards_batch_sync client rnd cards retries =
     (if list_all has_keys cards then
        retry_loop (\<lambda>k. batch_attempt (client k)) rnd True
          (JArr (replicate (length cards) JNull)) 0 (nat retries) no_effects
      else (Inl KeyError, no_effects))"

section \<open>The output sink\<close>

text \<open>
  The state of a run: the files, the three counters of \<open>main\<close> and of
  \<open>batch_tag_cards_async\<close>, and the position of the progress bar.
\<close>

record run_state =
  files :: fs
  successful_count :: nat
  current_file_index :: nat
  current_file_count :: nat
  progress :: nat

definition init_state :: "fs \<Rightarrow> run_state" where
  "init_state f =
     \<lparr>files = f, successful_count = 0, current_file_index = 0, current_file_count = 0,
      progress = 0\<rparr>"

text \<open>\<open>if split_size > 0 and current_file_count >= split_size\<close>: move to the next file.\<close>

definition switch_file :: "int \<Rightarrow> run_state \<Rightarrow> run_state" where
  "switch_file split_size s =
     (if split_size > 0 \<and> int (current_file_count s) \<ge> split_size
      then s\<lparr>current_file_index := current_file_index s + 1, current_file_count := 0\<rparr>
      else s)"

text \<open>One line appended to a file, and the two counters that follow the write.\<close>

definition write_line :: "path \<Rightarrow> json \<Rightarrow> run_state \<Rightarrow> run_state" where
  "write_line p r s =
     s\<lparr>files := append_file (files s) p (json_dumps r @ [10]),
       successful_count := successful_count s + 1,
       current_file_count := current_file_count s + 1\<rparr>"

text \<open>
  What the sequential loop and \<open>safe_tag\<close> do with the result of one card:
  \<open>if result:\<close> switch file if needed, append to the current file, count.
\<close>

definition write_result :: "path \<Rightarrow> int \<Rightarrow> json \<Rightarrow> run_state \<Rightarrow> run_state" where
  "write_result output_path split_size result s =
     (if truthy result then
        (let s1 = switch_file split_size s
         in write_line (get_output_filename output_path (current_file_index s1)) result s1)
      else s)"

text \<open>
  The remote service and the random generator of a run: \<open>remote env i k\<close> answers round
  \<open>k\<close> of the \<open>i\<close>-th tagging call of the run, \<open>random env i k\<close> is the random number of
  that round.
\<close>

record env =
  remote :: "nat \<Rightarrow> nat \<Rightarrow> ustr option"
  random :: "nat \<Rightarrow> nat \<Rightarrow> real"

subsection \<open>Sequential mode\<close>

text \<open>
  \<open>for i, card in enumerate(input_cards)\<close>; an exception of \<open>tag_card_sync\<close> ends the run
  with the state reached so far.
\<close>

fun sequential_loop ::
  "path \<Rightarrow> int \<Rightarrow> env \<Rightarrow> nat \<Rightarrow> pydict list \<Rightarrow> run_state \<Rightarrow> run_state \<times> error option" where
  "sequential_loop output_path split_size ev i [] s = (s, None)"
| "sequential_loop output_path split_size ev i (crd # cards) s =
     (case fst (tag_card_sync (remote ev i) (random ev i) crd 5) of
        Inl e \<Rightarrow> (s, Some e)
      | Inr tagged \<Rightarrow>
          sequential_loop output_path split_size ev (i + 1) cards
            ((write_result output_path split_size tagged s)\<lparr>progress := progress s + 1\<rparr>))"

subsection \<open>Batch mode\<close>

text \<open>\<open>for r in tagged_batch\<close> iterates a list, the keys of a dict or the characters of a
  string, and raises \<open>TypeError\<close> on anything else.\<close>

definition py_iter :: "json \<Rightarrow> error + json list" where
  "py_iter v =
     (case v of
        JArr xs \<Rightarrow> Inr xs
      | JObj d \<Rightarrow> Inr (map (\<lambda>kv. JStr (fst kv)) d)
      | JStr cs \<Rightarrow> Inr (map (\<lambda>c. JStr [c]) cs)
      | _ \<Rightarrow> Inl TypeError)"

fun write_batch :: "path \<Rightarrow> json list \<Rightarrow> run_state \<Rightarrow> run_state" where
  "write_batch p [] s = s"
| "write_batch p (r # rs) s = write_batch p rs (if truthy r then write_line p r s else s)"

text \<open>
  \<open>for i in range(0, len(input_cards), batch_size)\<close> with \<open>batch = input_cards[i:i +
  batch_size]\<close>: the file is chosen once for the batch and opened for appending (which
  creates it) before the results are looked at.  \<open>n\<close> numbers the batches.
\<close>

function batch_loop ::
  "path \<Rightarrow> int \<Rightarrow> nat \<Rightarrow> env \<Rightarrow> nat \<Rightarrow> pydict list \<Rightarrow> run_state \<Rightarrow> run_state \<times> error option" where
  "batch_loop output_path split_size batch_size ev n cards s =
     (if batch_size = 0 \<or> cards = [] then (s, None)
      else
        (case fst (tag_cards_batch_sync (remote ev n) (random ev n) (take batch_size cards) 5) of
           Inl e \<Rightarrow> (s, Some e)
         | Inr tagged_batch \<Rightarrow>
             (let s1 = switch_file split_size s;
                  p = get_output_filename output_path (current_file_index s1);
                  s2 = s1\<lparr>files := append_file (files s1) p []\<rparr>
              in case py_iter tagged_batch of
                   Inl e \<Rightarrow> (s2, Some e)
                 | Inr rs \<Rightarrow>
                     batch_loop output_path split_size batch_size ev (n + 1)
                       (drop batch_size cards)
                       ((write_batch p rs s2)\<lparr>progress := progress s2 + 1\<rparr>))))"
  by pat_completeness auto
termination
  by (relation "measure (\<lambda>(output_path, split_size, batch_size, ev, n, cards, s). length cards)")
     auto

declare batch_loop.simps [simp del]

subsection \<open>Bounded-concurrent mode\<close>

text \<open>
  \<open>batch_tag_cards_async\<close> creates one task \<open>safe_tag(card)\<close> per card and runs them all on
  one event loop under \<open>asyncio.Semaphore(concurrency)\<close>.  A task waits for the semaphore,
  then is in flight inside \<open>tag_card_async\<close>, then, without giving up control in between,
  writes its result, releases the semaphore and is finished.  The event loop is a
  sequence of choices of the task that moves next; a waiting task that is chosen while
  the semaphore is exhausted stays waiting.  \<open>started\<close> counts, per task, how often
  \<open>tag_card_async\<close> was entered.  The awaits inside \<open>tag_card_async\<close> touch neither the
  semaphore nor the counters nor the files, so the call is one step.
\<close>

datatype task = Waiting | InFlight | Finished

record async_state =
  tasks :: "task list"
  sem :: nat
  started :: "nat list"
  sink :: run_state
  failure :: "error option"

definition in_flight :: "async_state \<Rightarrow> nat" where
  "in_flight st = length (filter (\<lambda>t. t = InFlight) (tasks st))"

definition safe_tag_step ::
  "path \<Rightarrow> int \<Rightarrow> env \<Rightarrow> pydict list \<Rightarrow> nat \<Rightarrow> async_state \<Rightarrow> async_state" where
  "safe_tag_step output_path split_size ev cards i st =
     (if i < length (tasks st) then
        (case tasks st ! i of
           Waiting \<Rightarrow>
             (if 0 < sem st then
                st\<lparr>tasks := (tasks st)[i := InFlight], sem := sem st - 1,
                   started := (started st)[i := started st ! i + 1]\<rparr>
              else st)
         | InFlight \<Rightarrow>
             (case fst (tag_card_async (remote ev i) (random ev i) (cards ! i) 5) of
                Inl e \<Rightarrow>
                  st\<lparr>tasks := (tasks st)[i := Finished], sem := sem st + 1,
                     failure := (case failure st of None \<Rightarrow> Some e | Some e' \<Rightarrow> Some e')\<rparr>
              | Inr result \<Rightarrow>
                  st\<lparr>tasks := (tasks st)[i := Finished], sem := sem st + 1,
                     sink := (write_result output_path split_size result (sink st))
                               \<lparr>progress := progress (sink st) + 1\<rparr>\<rparr>)
         | Finished \<Rightarrow> st)
      else st)"

definition async_init :: "fs \<Rightarrow> nat \<Rightarrow> pydict list \<Rightarrow> async_state" where
  "async_init f concurrency cards =
     \<lparr>tasks = replicate (length cards) Waiting, sem = concurrency,
      started = replicate (length cards) 0, sink = init_state f, failure = None\<rparr>"

definition batch_tag_cards_async ::
  "pydict list \<Rightarrow> path \<Rightarrow> nat \<Rightarrow> int \<Rightarrow> env \<Rightarrow> fs \<Rightarrow> nat list \<Rightarrow> async_state" where
  "batch_tag_cards_async cards output_path concurrency split_size ev f schedule =
     fold (safe_tag_step output_path split_size ev cards) schedule
       (async_init f concurrency cards)"

section \<open>The program \<open>main\<close>\<close>

text \<open>The command-line options that the run depends on.\<close>

record config =
  out_path :: path
  use_async :: bool
  concurrency :: int
  batch_size :: int
  edh_only :: bool
  colors :: "ustr list"
  colorless :: bool
  resume :: bool
  split_size :: int

text \<open>A list comprehension whose condition may raise.\<close>

fun filter_err :: "('a \<Rightarrow> error + bool) \<Rightarrow> 'a list \<Rightarrow> error + 'a list" where
  "filter_err p [] = Inr []"
| "filter_err p (x # xs) =
     (case p x of
        Inl e \<Rightarrow> Inl e
      | Inr b \<Rightarrow>
          (case filter_err p xs of
             Inl e \<Rightarrow> Inl e
           | Inr ys \<Rightarrow> Inr (if b then x # ys else ys)))"

definition has_oracle_text :: "pydict \<Rightarrow> bool" where
  "has_oracle_text crd = truthy (dict_get crd (str ''oracle_text'') JNull)"

text \<open>\<open>card.get('legalities', {}).get('commander') == 'legal'\<close>\<close>

definition edh_legal :: "pydict \<Rightarrow> error + bool" where
  "edh_legal crd =
     (case dict_get crd (str ''legalities'') (JObj []) of
        JObj d \<Rightarrow> Inr (dict_get d (str ''commander'') JNull = JStr (str ''legal''))
      | _ \<Rightarrow> Inl AttributeError)"

text \<open>
  \<open>set(x)\<close> holds the elements of a list (all of which must be hashable), the characters
  of a string or the keys of a dict.  Two sets are equal when each element of one equals
  an element of the other.
\<close>

definition py_set :: "json \<Rightarrow> error + json list" where
  "py_set v =
     (case v of
        JArr xs \<Rightarrow> if list_all hashable xs then Inr xs else Inl TypeError
      | JStr cs \<Rightarrow> Inr (map (\<lambda>c. JStr [c]) cs)
      | JObj d \<Rightarrow> Inr (map (\<lambda>kv. JStr (fst kv)) d)
      | _ \<Rightarrow> Inl TypeError)"

definition set_eq :: "json list \<Rightarrow> json list \<Rightarrow> bool" where
  "set_eq xs ys = (list_all (\<lambda>x. py_in x ys) xs \<and> list_all (\<lambda>y. py_in y xs) ys)"

text \<open>
  The body of the colour loop: with \<open>card_colors = set(card.get('color_identity', []))\<close>
  the card is kept \<open>if args.colorless and not card_colors\<close>, or
  \<open>elif target_colors and card_colors == target_colors\<close>.
\<close>

definition color_match :: "ustr list \<Rightarrow> bool \<Rightarrow> pydict \<Rightarrow> error + bool" where
  "color_match cols cless crd =
     (case py_set (dict_get crd (str ''color_identity'') (JArr [])) of
        Inl e \<Rightarrow> Inl e
      | Inr card_colors \<Rightarrow>
          Inr (if cless \<and> card_colors = [] then True
               else if cols \<noteq> [] \<and> set_eq card_colors (map JStr cols) then True
               else False))"

definition color_filter :: "ustr list \<Rightarrow> bool \<Rightarrow> pydict list \<Rightarrow> error + pydict list" where
  "color_filter cols cless cards =
     (if cols \<noteq> [] \<or> cless then filter_err (color_match cols cless) cards else Inr cards)"

text \<open>
  The resume scan: every line that is not blank is parsed, and \<open>result.get("oracle_id")\<close>
  is added to a set; a line that does not parse, a line that is not a dict and an
  identifier that cannot be hashed raise.  Then the cards whose identifier is in the set
  are removed.
\<close>

fun collect_ids :: "ustr list \<Rightarrow> json list \<Rightarrow> error + json list" where
  "collect_ids [] ids = Inr ids"
| "collect_ids (line # ls) ids =
     (if py_strip line = [] then collect_ids ls ids
      else
        (case json_loads (py_strip line) of
           None \<Rightarrow> Inl JSONDecodeError
         | Some (JObj d) \<Rightarrow>
             (let oid = dict_get d (str ''oracle_id'') JNull
              in if hashable oid then collect_ids ls (ids @ [oid]) else Inl TypeError)
         | Some _ \<Rightarrow> Inl AttributeError))"

definition not_processed :: "json list \<Rightarrow> pydict \<Rightarrow> error + bool" where
  "not_processed ids crd =
     (let oid = dict_get crd (str ''oracle_id'') JNull
      in if hashable oid then Inr (\<not> py_in oid ids) else Inl TypeError)"

definition resume_scan :: "ustr \<Rightarrow> pydict list \<Rightarrow> error + pydict list" where
  "resume_scan content cards =
     (case collect_ids (py_lines [] content) [] of
        Inl e \<Rightarrow> Inl e
      | Inr ids \<Rightarrow> filter_err (not_processed ids) cards)"

text \<open>
  \<open>if args.resume and Path(args.output).exists()\<close> the scan runs inside \<open>try\<close>, and
  \<open>except Exception\<close> only prints a warning, so the cards stay as they were;
  \<open>elif not args.resume\<close> the output file is overwritten with the empty text.
\<close>

definition main_resume :: "config \<Rightarrow> fs \<Rightarrow> pydict list \<Rightarrow> fs \<times> pydict list" where
  "main_resume cfg f cards =
     (case (resume cfg, f (out_path cfg)) of
        (True, Some content) \<Rightarrow>
          (f, case resume_scan content cards of Inl e \<Rightarrow> cards | Inr cs \<Rightarrow> cs)
      | (True, None) \<Rightarrow> (f, cards)
      | (False, _) \<Rightarrow> (f(out_path cfg \<mapsto> []), cards))"

text \<open>
  The whole run: the three filters, the resume step, then one of the three modes.  An
  exception that leaves \<open>main\<close> is returned beside the state reached.  In the
  bounded-concurrent mode \<open>schedule\<close> is the order in which the event loop moves the
  tasks.
\<close>

definition process :: "config \<Rightarrow> env \<Rightarrow> nat list \<Rightarrow> fs \<Rightarrow> pydict list \<Rightarrow> run_state \<times> error option" where
  "process cfg ev schedule f cards =
     (if use_async cfg then
        (if concurrency cfg < 0 then (init_state f, Some ValueError)
         else
           (let st = batch_tag_cards_async cards (out_path cfg) (nat (concurrency cfg))
                       (split_size cfg) ev f schedule
            in (sink st, failure st)))
      else if batch_size cfg > 0 then
        batch_loop (out_path cfg) (split_size cfg) (nat (batch_size cfg)) ev 0 cards (init_state f)
      else sequential_loop (out_path cfg) (split_size cfg) ev 0 cards (init_state f))"

definition main :: "config \<Rightarrow> env \<Rightarrow> nat list \<Rightarrow> fs \<Rightarrow> pydict list \<Rightarrow> run_state \<times> error option" where
  "main cfg ev schedule f input_cards =
     (case (if edh_only cfg then filter_err edh_legal (filter has_oracle_text input_cards)
            else Inr (filter has_oracle_text input_cards)) of
        Inl e \<Rightarrow> (init_state f, Some e)
      | Inr legal \<Rightarrow>
          (case color_filter (colors cfg) (colorless cfg) legal of
             Inl e \<Rightarrow> (init_state f, Some e)
           | Inr colored \<Rightarrow>
               (case main_resume cfg f colored of
                  (f', todo) \<Rightarrow> process cfg ev schedule f' todo)))"

section \<open>Cards used in the properties\<close>

text \<open>
  \<open>identity_is crd ci\<close>: the card's \<open>color_identity\<close> is the list of colour symbols \<open>ci\<close>;
  \<open>identity_of\<close> reads that list off a card; \<open>card_with_identity\<close> is a card that has
  nothing but a colour identity.
\<close>

definition identity_is :: "pydict \<Rightarrow> ustr list \<Rightarrow> bool" where
  "identity_is crd ci = (dict_get crd (str ''color_identity'') (JArr []) = JArr (map JStr ci))"

definition identity_of :: "pydict \<Rightarrow> ustr list" where
  "identity_of crd =
     (case dict_get crd (str ''color_identity'') (JArr []) of
        JArr xs \<Rightarrow> map (\<lambda>x. case x of JStr s \<Rightarrow> s | _ \<Rightarrow> []) xs
      | _ \<Rightarrow> [])"

definition card_with_identity :: "ustr list \<Rightarrow> pydict" where
  "card_with_identity ci = [(str ''color_identity'', JArr (map JStr ci))]"




definition named_card :: pydict where
  "named_card = [(str ''name'', JStr (str ''Opt'')), (str ''oracle_id'', JStr (str ''a'')),
                 (str ''oracle_text'', JStr (str ''Scry 1.''))]"

section \<open>The extractor as the specification words it\<close>

text \<open>
  The four steps of the specification, over the trimmed text: (1) the whole trimmed text
  if it parses; (2) otherwise the trimmed text if it has neither \<open>{\<close> nor \<open>[\<close>; (3)
  otherwise the first candidate \<open>txt[start:end]\<close> that parses, \<open>start\<close> being the earliest
  bracket and \<open>end\<close> running from the end of the text down to \<open>start + 1\<close>; (4) the trimmed
  text if no candidate parses.
\<close>

definition earliest_bracket :: "ustr \<Rightarrow> nat" where
  "earliest_bracket txt = length (takeWhile (\<lambda>c. c \<noteq> 123 \<and> c \<noteq> 91) txt)"

definition candidates :: "ustr \<Rightarrow> nat \<Rightarrow> ustr list" where
  "candidates txt start = map (py_slice txt start) (rev [start + 1..<length txt + 1])"

definition clean_json_spec :: "ustr \<Rightarrow> ustr" where
  "clean_json_spec raw =
     (let txt = py_strip raw in
      if json_loads txt \<noteq> None then txt
      else if filter (\<lambda>c. c = 123 \<or> c = 91) txt = [] then txt
      else (case find (\<lambda>s. json_loads s \<noteq> None) (candidates txt (earliest_bracket txt)) of
              Some s \<Rightarrow> s
            | None \<Rightarrow> txt))"

section \<open>The invariant of the bounded-concurrent mode\<close>

text \<open>
  With \<open>c\<close> the capacity and \<open>n\<close> the number of cards: there is a task and a counter per
  card, the tasks in flight and the free slots of the semaphore add up to \<open>c\<close>, and the
  counter of a task is 0 while it waits and 1 afterwards.
\<close>

definition async_inv :: "nat \<Rightarrow> nat \<Rightarrow> async_state \<Rightarrow> bool" where
  "async_inv c n st =
     (length (tasks st) = n \<and> length (started st) = n \<and> in_flight st + sem st = c
      \<and> started st = map (\<lambda>t. if t = Waiting then 0 else 1) (tasks st))"

text \<open>A run in which the remote service never answers.\<close>

definition dead_env :: env where
  "dead_env = \<lparr>remote = (\<lambda>i k. None), random = (\<lambda>i k. 0)\<rparr>"

definition no_files :: fs where
  "no_files = (\<lambda>p. None)"

definition out_file :: path where
  "out_file = \<lparr>parent = str ''out'', name = str ''tagged.jsonl''\<rparr>"

section \<open>Configurations and files used in the properties\<close>

text \<open>
  A line is corrupt when it is not blank and \<open>json.loads\<close> rejects it.  \<open>default_config\<close>
  is the run without any option; \<open>half_written\<close> is an output file whose second line was
  cut off.
\<close>

definition corrupt_line :: "ustr \<Rightarrow> bool" where
  "corrupt_line line = (py_strip line \<noteq> [] \<and> json_loads (py_strip line) = None)"

definition default_config :: config where
  "default_config =
     \<lparr>out_path = out_file, use_async = False, concurrency = 10, batch_size = 0,
      edh_only = False, colors = [], colorless = False, resume = False, split_size = 0\<rparr>"

definition half_written :: ustr where
  \<open>half_written = str ''{"oracle_id": "a"}'' @ [10] @ str ''{"oracle_id"'' @ [10]\<close>








text \<open>
  Five cards and a remote service whose answer to the \<open>n\<close>-th call is the object
  \<open>{"n": n}\<close>; a service that answers a batch of five with the five objects in one array;
  the names of the split files; a run with split threshold 2, and one in batch mode with
  batches of five.  \<open>old_text\<close> is the text of a file, empty when the file is missing.
\<close>

definition numbered :: "int \<Rightarrow> json" where
  "numbered n = JObj [(str ''n'', JInt n)]"

definition answers :: "ustr list" where
  \<open>answers = [str ''{"n": 1}'', str ''{"n": 2}'', str ''{"n": 3}'', str ''{"n": 4}'',
              str ''{"n": 5}'']\<close>

definition numbered_env :: env where
  "numbered_env =
     \<lparr>remote = (\<lambda>i k. if i < 5 then Some (answers ! i) else None), random = (\<lambda>i k. 0)\<rparr>"

definition batch_env :: env where
  \<open>batch_env =
     \<lparr>remote = (\<lambda>i k. Some (str ''[{"n": 1}, {"n": 2}, {"n": 3}, {"n": 4}, {"n": 5}]'')),
      random = (\<lambda>i k. 0)\<rparr>\<close>

definition five_cards :: "pydict list" where
  "five_cards = [named_card, named_card, named_card, named_card, named_card]"

definition part_file :: "nat \<Rightarrow> path" where
  "part_file n = \<lparr>parent = str ''out'', name = str ''tagged_part'' @ dec_nat n @ str ''.jsonl''\<rparr>"

definition old_text :: "fs \<Rightarrow> path \<Rightarrow> ustr" where
  "old_text f p = (case f p of None \<Rightarrow> [] | Some c \<Rightarrow> c)"

definition split_config :: config where
  "split_config = default_config\<lparr>split_size := 2\<rparr>"

definition batch_split_config :: config where
  "batch_split_config = default_config\<lparr>split_size := 2, batch_size := 5\<rparr>"

section \<open>Appending to the output store\<close>



section \<open>Properties\<close>

subsection \<open>The colour filter\<close>

lemma py_eq_JStr [simp]: "py_eq (JStr a) (JStr b) = (a = b)"
  by (simp add: py_eq_def)

lemma py_in_JStr [simp]: "py_in (JStr a) (map JStr ys) = (a \<in> set ys)"
  by (induction ys) (auto simp: py_in_def)

lemma set_eq_JStr: "set_eq (map JStr xs) (map JStr ys) = (set xs = set ys)"
  by (auto simp: set_eq_def list_all_iff)

lemma hashable_JStr: "list_all hashable (map JStr xs)"
  by (induction xs) auto

lemma filter_err_total:
  "(\<And>x. x \<in> set xs \<Longrightarrow> p x = Inr (q x)) \<Longrightarrow> filter_err p xs = Inr (filter q xs)"
  by (induction xs) auto

lemma color_match_exact:
  assumes "identity_is crd ci"
  shows "color_match cols cless crd =
           Inr ((cless \<and> ci = []) \<or> (cols \<noteq> [] \<and> set ci = set cols))"
  using assms
  by (auto simp: color_match_def identity_is_def py_set_def hashable_JStr set_eq_JStr)

lemma identity_card [simp]: "identity_of (card_with_identity ci) = ci"
  by (simp add: identity_of_def card_with_identity_def dict_get_def comp_def)

lemma identity_is_card [simp]: "identity_is (card_with_identity ci) ci"
  by (simp add: identity_is_def card_with_identity_def dict_get_def)

text \<open>
  Claim C9.  With the colours B and R requested, the colour filter keeps exactly the
  cards whose colour identity is the set {B, R}, and, when the colourless flag is set, the
  cards whose identity is empty.  So a card with identity {B, R} is kept, cards with
  identity {B} or {B, R, W} are dropped, and a card with empty identity is kept only under
  the colourless flag.  (The cards are those whose \<open>color_identity\<close> is a list of strings.)
\<close>

theorem color_filter_exact_BR:
  assumes "set cols = {str ''B'', str ''R''}"
    and "list_all (\<lambda>crd. identity_is crd (ident crd)) cards"
  shows "color_filter cols cless cards =
           Inr (filter (\<lambda>crd. set (ident crd) = {str ''B'', str ''R''}
                              \<or> (cless \<and> ident crd = [])) cards)"
proof -
  from assms(1) have ne: "cols \<noteq> []" by auto
  have "filter_err (color_match cols cless) cards =
          Inr (filter (\<lambda>crd. (cless \<and> ident crd = [])
                             \<or> (cols \<noteq> [] \<and> set (ident crd) = set cols)) cards)"
    using assms(2) by (intro filter_err_total color_match_exact) (simp add: list_all_iff)
  with ne assms(1) show ?thesis
    by (simp add: color_filter_def disj_commute cong: filter_cong)
qed

theorem color_filter_exact_BR_witness:
  "set [str ''B'', str ''R''] = {str ''B'', str ''R''}
   \<and> list_all (\<lambda>crd. identity_is crd (identity_of crd))
        [card_with_identity [str ''B'', str ''R''], card_with_identity [str ''B''],
         card_with_identity [str ''B'', str ''R'', str ''W''], card_with_identity []]
   \<and> color_filter [str ''B'', str ''R''] False
        [card_with_identity [str ''B'', str ''R''], card_with_identity [str ''B''],
         card_with_identity [str ''B'', str ''R'', str ''W''], card_with_identity []]
       = Inr [card_with_identity [str ''B'', str ''R'']]
   \<and> color_filter [str ''B'', str ''R''] True
        [card_with_identity [str ''B'', str ''R''], card_with_identity [str ''B''],
         card_with_identity [str ''B'', str ''R'', str ''W''], card_with_identity []]
       = Inr [card_with_identity [str ''B'', str ''R''], card_with_identity []]"
proof -
  let ?cards = "[card_with_identity [str ''B'', str ''R''], card_with_identity [str ''B''],
         card_with_identity [str ''B'', str ''R'', str ''W''], card_with_identity []]"
  have h1: "set [str ''B'', str ''R''] = {str ''B'', str ''R''}" by simp
  have h2: "list_all (\<lambda>crd. identity_is crd (identity_of crd)) ?cards" by simp
  have ne: "str ''B'' \<noteq> str ''R''" "str ''B'' \<noteq> str ''W''" "str ''R'' \<noteq> str ''W''"
    by (simp_all add: str_def)
  from ne have "str ''W'' \<notin> {str ''B'', str ''R''}" "str ''R'' \<notin> {str ''B''}" by auto
  then have s: "{str ''B''} \<noteq> {str ''B'', str ''R''}"
    "{str ''B'', str ''R'', str ''W''} \<noteq> {str ''B'', str ''R''}" by blast+
  show ?thesis
    using color_filter_exact_BR [OF h1 h2, of False] color_filter_exact_BR [OF h1 h2, of True]
      h2 s
    by simp
qed

subsection \<open>The retry controller\<close>







text \<open>
  The warning formats \<open>card['name']\<close>: for a card without that key the first failing round
  raises \<open>KeyError\<close> out of the handler.
\<close>

lemma tag_card_sync_nameless:
  assumes "dict_item crd (str ''name'') = None" and "single_attempt (client 0) = None"
    and "0 < retries"
  shows "fst (tag_card_sync client rnd crd retries) = Inl KeyError"
proof -
  from assms(3) have "0 < nat retries" by simp
  then obtain n where "nat retries = Suc n" by (cases "nat retries") auto
  with assms(1,2) show ?thesis by (simp add: tag_card_sync_def)
qed

subsection \<open>Evaluation rules\<close>

lemmas json_eval = json_loads_def str_def json_ws_def punct_def scan_scalar_def strip_prefix_def
  scan_number_def scan_int_def scan_frac_def scan_exp_def is_digit_def unescape_def hex4_def
  hex_val_def surrogate_pair_def

lemmas text_eval = py_strip_def py_space_def py_slice_def first_bracket_def clean_json_def
  scan_ends.simps Let_def

subsection \<open>The response extractor\<close>

lemma py_find_eq:
  "py_find c txt = (if c \<in> set txt then int (length (takeWhile (\<lambda>x. x \<noteq> c) txt)) else - 1)"
  by (induction "txt") (auto simp: Let_def)

lemma takeWhile_conj_min:
  "length (takeWhile (\<lambda>c. P c \<and> Q c) xs) = min (length (takeWhile P xs)) (length (takeWhile Q xs))"
  by (induction xs) auto

lemma takeWhile_absent: "c \<notin> set xs \<Longrightarrow> takeWhile (\<lambda>x. x \<noteq> c) xs = xs"
  by (induction xs) auto

lemma first_bracket_eq:
  "first_bracket t =
     (if filter (\<lambda>c. c = 123 \<or> c = 91) t = [] then - 1 else int (earliest_bracket t))"
proof -
  have e: "(filter (\<lambda>c. c = 123 \<or> c = 91) t = []) = (123 \<notin> set t \<and> 91 \<notin> set t)"
    by (auto simp: filter_empty_conv)
  have m: "earliest_bracket t =
             min (length (takeWhile (\<lambda>c. c \<noteq> 123) t)) (length (takeWhile (\<lambda>c. c \<noteq> 91) t))"
    by (simp add: earliest_bracket_def takeWhile_conj_min)
  have le: "\<And>P. length (takeWhile P t) \<le> length t" by (rule length_takeWhile_le)
  consider (none) "123 \<notin> set t" "91 \<notin> set t" | (brace) "123 \<in> set t" "91 \<notin> set t"
    | (brack) "123 \<notin> set t" "91 \<in> set t" | (both) "123 \<in> set t" "91 \<in> set t"
    by blast
  then show ?thesis
  proof cases
    case none
    then show ?thesis unfolding e by (simp add: first_bracket_def py_find_eq)
  next
    case brace
    then show ?thesis unfolding e m
      by (simp add: first_bracket_def py_find_eq takeWhile_absent le min_absorb1)
  next
    case brack
    then show ?thesis unfolding e m
      by (simp add: first_bracket_def py_find_eq takeWhile_absent le min_absorb2)
  next
    case both
    then show ?thesis unfolding e m
      by (simp add: first_bracket_def py_find_eq min.commute)
  qed
qed

lemma scan_ends_eq:
  "scan_ends t first e =
     find (\<lambda>s. json_loads s \<noteq> None) (map (py_slice t first) (rev [first + 1..<e + 1]))"
proof (induction t first e rule: scan_ends.induct)
  case (1 t first e)
  show ?case
  proof (cases "first < e")
    case False
    then show ?thesis by (subst scan_ends.simps) simp
  next
    case True
    then have u: "rev [Suc first..<Suc e] = e # rev [Suc first..<e]" by simp
    from True have v: "e - 1 + 1 = e" by simp
    show ?thesis
    proof (cases "json_loads (py_slice t first e) \<noteq> None")
      case True
      with \<open>first < e\<close> show ?thesis by (subst scan_ends.simps) (simp add: u del: upt_Suc)
    next
      case False
      with \<open>first < e\<close> have "scan_ends t first e = scan_ends t first (e - 1)"
        by (subst scan_ends.simps) simp
      also from "1.IH" [OF \<open>first < e\<close> refl] False
      have "\<dots> = find (\<lambda>s. json_loads s \<noteq> None)
                    (map (py_slice t first) (rev [first + 1..<e - 1 + 1]))" by simp
      also from False have "\<dots> = find (\<lambda>s. json_loads s \<noteq> None)
                    (map (py_slice t first) (rev [first + 1..<e + 1]))"
        unfolding v by (simp add: u del: upt_Suc)
      finally show ?thesis .
    qed
  qed
qed

lemma clean_json_refines: "clean_json raw = clean_json_spec raw"
  unfolding clean_json_def clean_json_spec_def Let_def first_bracket_eq scan_ends_eq candidates_def
  by simp


lemma clean_json_sure:
  \<open>clean_json (str ''Sure! {"a":1} thanks'') = str ''{"a":1} ''\<close>
  by (simp add: json_eval text_eval)

lemma loads_sure: \<open>json_loads (str ''{"a":1} '') = Some (JObj [(str ''a'', JInt 1)])\<close>
  by (simp add: json_eval)

lemma clean_json_not_json: "clean_json (str ''not json at all'') = str ''not json at all''"
  by (simp add: json_eval text_eval)

text \<open>
  Claim C2, as amended.  For every input text, \<open>clean_json\<close> works on the trimmed text:
  (1) it returns the trimmed text if that parses as JSON; (2) otherwise it looks for the
  earliest \<open>{\<close> or \<open>[\<close> and returns the trimmed text if there is none; (3) otherwise it
  scans the end positions from the end of the trimmed text down to just after the start
  and returns the first \<open>txt[start:end]\<close> that parses; (4) if none parses it returns the
  trimmed text.  In particular \<open>Sure! {"a":1} thanks\<close> gives a text (the object followed by
  one blank) that parses to the object \<open>{"a":1}\<close>, and \<open>not json at all\<close> comes back
  unchanged.
\<close>

theorem clean_json_extract:
  \<open>(\<forall>raw. clean_json raw = clean_json_spec raw)
   \<and> clean_json (str ''Sure! {"a":1} thanks'') = str ''{"a":1} ''
   \<and> json_loads (clean_json (str ''Sure! {"a":1} thanks'')) = Some (JObj [(str ''a'', JInt 1)])
   \<and> clean_json (str ''not json at all'') = str ''not json at all''\<close>
  using clean_json_refines clean_json_sure loads_sure clean_json_not_json by simp

text \<open>
  The claim as stated returns the original text where nothing can be extracted; the code
  returns the trimmed text, which differs when the input has blanks around it.
\<close>

theorem clean_json_extract_counterexample:
  "json_loads (py_strip (str '' not json '')) = None
   \<and> first_bracket (py_strip (str '' not json '')) = - 1
   \<and> clean_json (str '' not json '') = str ''not json''
   \<and> clean_json (str '' not json '') \<noteq> str '' not json ''"
  by (simp add: json_eval text_eval)

subsection \<open>The bounded-concurrent dispatcher\<close>

lemma filter_update_in:
  "i < length xs \<Longrightarrow> \<not> P (xs ! i) \<Longrightarrow> P v \<Longrightarrow>
   length (filter P (xs[i := v])) = Suc (length (filter P xs))"
proof (induction xs arbitrary: i)
  case Nil
  then show ?case by simp
next
  case (Cons x xs)
  then show ?case by (cases i) auto
qed

lemma filter_update_out:
  "i < length xs \<Longrightarrow> P (xs ! i) \<Longrightarrow> \<not> P v \<Longrightarrow>
   Suc (length (filter P (xs[i := v]))) = length (filter P xs)"
proof (induction xs arbitrary: i)
  case Nil
  then show ?case by simp
next
  case (Cons x xs)
  then show ?case by (cases i) auto
qed

lemma map_update_status:
  "i < length xs \<Longrightarrow> (map f xs)[i := f v] = map f (xs[i := v])"
  by (simp add: map_update)

lemma async_inv_init: "async_inv c (length cards) (async_init f c cards)"
  by (simp add: async_inv_def async_init_def in_flight_def)

lemma async_inv_step:
  assumes "async_inv c n st"
  shows "async_inv c n (safe_tag_step outp split ev cards i st)"
proof (cases "i < length (tasks st)")
  case False
  with assms show ?thesis by (simp add: safe_tag_step_def)
next
  case True
  note i = True
  from assms have st: "started st = map (\<lambda>t. if t = Waiting then 0 else 1) (tasks st)"
    and fl: "in_flight st + sem st = c" and len: "length (tasks st) = n" "length (started st) = n"
    by (simp_all add: async_inv_def)
  show ?thesis
  proof (cases "tasks st ! i")
    case Waiting
    show ?thesis
    proof (cases "0 < sem st")
      case False
      with i Waiting assms show ?thesis by (simp add: safe_tag_step_def)
    next
      case True
      from i Waiting have "length (filter (\<lambda>t. t = InFlight) ((tasks st)[i := InFlight]))
                           = Suc (in_flight st)"
        unfolding in_flight_def by (intro filter_update_in) simp_all
      moreover have "(started st)[i := started st ! i + 1]
                     = map (\<lambda>t. if t = Waiting then 0 else 1) ((tasks st)[i := InFlight])"
        using i Waiting by (simp add: st map_update)
      ultimately show ?thesis
        using i Waiting True fl len
        by (simp add: safe_tag_step_def async_inv_def in_flight_def)
    qed
  next
    case InFlight
    from i InFlight have d: "Suc (length (filter (\<lambda>t. t = InFlight) ((tasks st)[i := Finished])))
                           = in_flight st"
      unfolding in_flight_def by (intro filter_update_out) simp_all
    have s: "started st = map (\<lambda>t. if t = Waiting then 0 else 1) ((tasks st)[i := Finished])"
      unfolding st using i InFlight
      by (intro nth_equalityI) (auto simp: nth_list_update)
    show ?thesis
      using i InFlight fl len d s
      by (auto simp: safe_tag_step_def async_inv_def in_flight_def split: sum.splits)
  next
    case Finished
    with i assms show ?thesis by (simp add: safe_tag_step_def)
  qed
qed

lemma async_inv_fold:
  "async_inv c n st \<Longrightarrow> async_inv c n (fold (safe_tag_step outp split ev cards) sched st)"
  by (induction sched arbitrary: st) (auto intro: async_inv_step)

text \<open>
  Claim C3.  In the bounded-concurrent mode with capacity \<open>c\<close>, for every list of cards,
  every \<open>c\<close> and every order in which the event loop moves the tasks: before the loop
  moves anything there is one waiting task per card (all cards are submitted up front);
  at every moment there is exactly one task per card, no task has entered
  \<open>tag_card_async\<close> more than once, and the number of tasks in flight is at most \<open>c\<close>.
\<close>

theorem bounded_concurrency:
  "tasks (batch_tag_cards_async cards outp c split ev f []) =
     replicate (length cards) Waiting
   \<and> length (tasks (batch_tag_cards_async cards outp c split ev f schedule)) =
       length cards
   \<and> set (started (batch_tag_cards_async cards outp c split ev f schedule)) \<subseteq> {0, 1}
   \<and> in_flight (batch_tag_cards_async cards outp c split ev f schedule) \<le> c"
proof -
  have "async_inv c (length cards)
          (batch_tag_cards_async cards outp c split ev f schedule)"
    unfolding batch_tag_cards_async_def by (intro async_inv_fold async_inv_init)
  then show ?thesis
    by (auto simp: async_inv_def batch_tag_cards_async_def async_init_def)
qed

text \<open>
  The bound is reached: three named cards under capacity 2; after each task has been
  chosen once two are in flight and the third waits, and at the end all three are
  finished.
\<close>

lemma bounded_concurrency_reached:
  "in_flight (batch_tag_cards_async [named_card, named_card, named_card] out_file 2 0
                dead_env no_files [0, 1, 2]) = 2
   \<and> tasks (batch_tag_cards_async [named_card, named_card, named_card] out_file 2 0
                dead_env no_files [0, 1, 2]) = [InFlight, InFlight, Waiting]
   \<and> tasks (batch_tag_cards_async [named_card, named_card, named_card] out_file 2 0
                dead_env no_files [0, 1, 2, 0, 2, 1, 2]) = [Finished, Finished, Finished]"
proof -
  have k: "has_keys named_card"
    by (simp add: has_keys_def named_card_def dict_item_def str_def)
  have r: "fst (tag_card_async (\<lambda>k. None) (\<lambda>k. 0) named_card 5) = Inr JNull"
    using k by (simp add: tag_card_async_def single_attempt_def eval_nat_numeral)
  show ?thesis
    by (simp add: batch_tag_cards_async_def async_init_def safe_tag_step_def in_flight_def
          dead_env_def r write_result_def numeral_2_eq_2)
qed

subsection \<open>The resume scan\<close>

lemma collect_ids_corrupt:
  "list_ex corrupt_line ls \<Longrightarrow> isl (collect_ids ls ids)"
proof (induction ls arbitrary: ids)
  case Nil
  then show ?case by simp
next
  case (Cons l ls)
  show ?case
  proof (cases "corrupt_line l")
    case True
    then show ?thesis by (simp add: corrupt_line_def)
  next
    case False
    with Cons.prems have "list_ex corrupt_line ls" by simp
    from Cons.IH [OF this] show ?thesis
      by (auto simp: Let_def split: option.splits json.splits)
  qed
qed

text \<open>
  Claim C8.  If, during the resume scan, a line of the existing output file fails to
  parse as JSON, the scan raises and the resume step is abandoned: the exception is caught
  in \<open>main\<close>, and the input cards (and the files) are left exactly as they were, so no
  collected identifier filters the input.
\<close>

theorem resume_scan_aborts:
  assumes "resume cfg" and "f (out_path cfg) = Some content"
    and "list_ex corrupt_line (py_lines [] content)"
  shows "isl (resume_scan content cards) \<and> main_resume cfg f cards = (f, cards)"
proof -
  from assms(3) have "isl (collect_ids (py_lines [] content) [])" by (rule collect_ids_corrupt)
  then have "isl (resume_scan content cards)"
    by (auto simp: resume_scan_def split: sum.splits)
  with assms(1,2) show ?thesis
    by (auto simp: main_resume_def split: sum.splits)
qed

theorem resume_scan_aborts_witness:
  "resume (default_config\<lparr>resume := True\<rparr>)
   \<and> (no_files(out_file \<mapsto> half_written)) (out_path (default_config\<lparr>resume := True\<rparr>))
       = Some half_written
   \<and> list_ex corrupt_line (py_lines [] half_written)
   \<and> isl (resume_scan half_written [named_card])
   \<and> main_resume (default_config\<lparr>resume := True\<rparr>) (no_files(out_file \<mapsto> half_written))
        [named_card] = (no_files(out_file \<mapsto> half_written), [named_card])"
proof -
  have l: "py_lines [] half_written = [str ''{\"oracle_id\": \"a\"}'', str ''{\"oracle_id\"'']"
    by (simp add: half_written_def str_def)
  have c: "list_ex corrupt_line (py_lines [] half_written)"
    unfolding l by (simp add: corrupt_line_def py_strip_def py_space_def json_eval)
  have r: "resume (default_config\<lparr>resume := True\<rparr>)" by simp
  have o: "(no_files(out_file \<mapsto> half_written)) (out_path (default_config\<lparr>resume := True\<rparr>))
       = Some half_written" by (simp add: default_config_def)
  from resume_scan_aborts [of "default_config\<lparr>resume := True\<rparr>"
         "no_files(out_file \<mapsto> half_written)" half_written "[named_card]"] r o c
  show ?thesis by blast
qed

subsection \<open>Resuming\<close>














subsection \<open>Falsy results\<close>








lemma named_card_keys: "has_keys named_card"
  by (simp add: has_keys_def named_card_def dict_item_def str_def)



subsection \<open>File splitting\<close>

lemmas dumps_eval = dumps_str_def escape_char_def dec_int_def dec_nat.simps str_def

lemma dumps_numbered:
  \<open>json_dumps (numbered 1) = str ''{"n": 1}''\<close>
  \<open>json_dumps (numbered 2) = str ''{"n": 2}''\<close>
  \<open>json_dumps (numbered 3) = str ''{"n": 3}''\<close>
  \<open>json_dumps (numbered 4) = str ''{"n": 4}''\<close>
  \<open>json_dumps (numbered 5) = str ''{"n": 5}''\<close>
  by (simp_all add: numbered_def dumps_eval)

lemma attempt_answers:
  "map (\<lambda>a. single_attempt (Some a)) answers = map (\<lambda>n. Some (numbered n)) [1, 2, 3, 4, 5]"
  by (simp add: answers_def single_attempt_def numbered_def json_eval text_eval)

lemma tag_card_sync_first:
  "single_attempt (client 0) = Some v \<Longrightarrow> fst (tag_card_sync client rnd crd 5) = Inr v"
  by (simp add: tag_card_sync_def eval_nat_numeral)

lemma tag_numbered:
  assumes "i < 5"
  shows "fst (tag_card_sync (remote numbered_env i) (random numbered_env i) named_card 5)
           = Inr (numbered ([1, 2, 3, 4, 5] ! i))"
proof -
  from assms have "i < length answers" by (simp add: answers_def)
  then have "single_attempt (Some (answers ! i)) =
               map (\<lambda>a. single_attempt (Some a)) answers ! i" by simp
  also from assms have "\<dots> = Some (numbered ([1, 2, 3, 4, 5] ! i))"
    unfolding attempt_answers by (subst nth_map) simp_all
  finally show ?thesis
    using assms by (intro tag_card_sync_first) (simp add: numbered_env_def)
qed

lemma output_names:
  "get_output_filename out_file 0 = out_file"
  "get_output_filename out_file (Suc 0) = part_file 2"
  "get_output_filename out_file (Suc (Suc 0)) = part_file 3"
  by (simp_all add: get_output_filename_def out_file_def part_file_def suffix_def stem_def
        dec_nat.simps str_def Let_def)

lemma part_files_distinct:
  "out_file \<noteq> part_file 2" "out_file \<noteq> part_file 3" "part_file 2 \<noteq> part_file 3"
  "part_file 4 \<noteq> out_file" "part_file 4 \<noteq> part_file 2" "part_file 4 \<noteq> part_file 3"
  by (simp_all add: out_file_def part_file_def dec_nat.simps str_def)

lemma truthy_numbered: "truthy (numbered n)"
  by (simp add: numbered_def)

lemma fresh_run:
  "\<not> use_async cfg \<Longrightarrow> \<not> edh_only cfg \<Longrightarrow> colors cfg = [] \<Longrightarrow> \<not> colorless cfg \<Longrightarrow>
   \<not> resume cfg \<Longrightarrow>
   main cfg ev sched f five_cards =
     (if batch_size cfg > 0
      then batch_loop (out_path cfg) (split_size cfg) (nat (batch_size cfg)) ev 0 five_cards
             (init_state (f(out_path cfg \<mapsto> [])))
      else sequential_loop (out_path cfg) (split_size cfg) ev 0 five_cards
             (init_state (f(out_path cfg \<mapsto> []))))"
  by (simp add: main_def main_resume_def process_def color_filter_def has_oracle_text_def
        dict_get_def named_card_def five_cards_def str_def)

lemmas sink_eval = write_result_def switch_file_def write_line_def append_file_def
  init_state_def

lemma append_old: "append_file f p t = f(p \<mapsto> old_text f p @ t)"
  by (simp add: append_file_def old_text_def split: option.splits)

lemma old_text_upd [simp]:
  "old_text (f(p \<mapsto> c)) p = c" "q \<noteq> p \<Longrightarrow> old_text (f(p \<mapsto> c)) q = old_text f q"
  by (simp_all add: old_text_def)

lemmas sink_eval2 = write_result_def switch_file_def write_line_def append_old init_state_def

text \<open>
  The sequential mode on five successful cards with threshold 2, started with resume
  disabled on any files \<open>f\<close>: the base file is emptied and gets records 1 and 2, the
  second file gets records 3 and 4 and the third gets record 5, each after whatever the
  split file held before.
\<close>

lemma sequential_split_run:
  \<open>files (fst (main split_config numbered_env [] f five_cards)) out_file
      = Some (str ''{"n": 1}'' @ [10] @ str ''{"n": 2}'' @ [10])
   \<and> files (fst (main split_config numbered_env [] f five_cards)) (part_file 2)
      = Some (old_text f (part_file 2) @ str ''{"n": 3}'' @ [10] @ str ''{"n": 4}'' @ [10])
   \<and> files (fst (main split_config numbered_env [] f five_cards)) (part_file 3)
      = Some (old_text f (part_file 3) @ str ''{"n": 5}'' @ [10])
   \<and> files (fst (main split_config numbered_env [] f five_cards)) (part_file 4)
      = f (part_file 4)
   \<and> current_file_index (fst (main split_config numbered_env [] f five_cards)) = 2
   \<and> snd (main split_config numbered_env [] f five_cards) = None\<close>
proof -
  have m: "main split_config numbered_env [] f five_cards =
             sequential_loop out_file 2 numbered_env 0 five_cards
               (init_state (f(out_file \<mapsto> [])))"
    by (subst fresh_run) (simp_all add: default_config_def split_config_def)
  show ?thesis
    by (simp only: m)
       (simp add: five_cards_def tag_numbered truthy_numbered sink_eval2 output_names
          part_files_distinct part_files_distinct [symmetric] dumps_numbered)
qed

lemma batch_answer:
  "batch_attempt (remote batch_env 0 0) = Some (JArr (map numbered [1, 2, 3, 4, 5]))"
  by (simp add: batch_env_def batch_attempt_def numbered_def json_eval text_eval)

lemma tag_cards_batch_first:
  "batch_attempt (client 0) = Some v \<Longrightarrow> list_all has_keys cards \<Longrightarrow>
   fst (tag_cards_batch_sync client rnd cards 5) = Inr v"
  by (simp add: tag_cards_batch_sync_def eval_nat_numeral)

lemma batch_loop_done [simp]: "batch_loop outp split bs ev n [] s = (s, None)"
  by (subst batch_loop.simps) simp

lemma batch_loop_more:
  "cards \<noteq> [] \<Longrightarrow> bs \<noteq> 0 \<Longrightarrow>
   batch_loop outp split bs ev n cards s =
     (case fst (tag_cards_batch_sync (remote ev n) (random ev n) (take bs cards) 5) of
        Inl e \<Rightarrow> (s, Some e)
      | Inr tagged_batch \<Rightarrow>
          (let s1 = switch_file split s;
               p = get_output_filename outp (current_file_index s1);
               s2 = s1\<lparr>files := append_file (files s1) p []\<rparr>
           in case py_iter tagged_batch of
                Inl e \<Rightarrow> (s2, Some e)
              | Inr rs \<Rightarrow>
                  batch_loop outp split bs ev (n + 1) (drop bs cards)
                    ((write_batch p rs s2)\<lparr>progress := progress s2 + 1\<rparr>)))"
  by (subst batch_loop.simps) simp

text \<open>
  Claim C4, at the input where the code departs from it: batch mode, threshold 2, one
  batch of five cards whose answer holds five records.  The switch to the next file is
  looked at once per batch, before its results are written, so all five records go into
  the first file, whose counter ends at 5, and no second file is made.
\<close>

theorem batch_split_overrun:
  \<open>files (fst (main batch_split_config batch_env [] no_files five_cards)) out_file
      = Some (str ''{"n": 1}'' @ [10] @ str ''{"n": 2}'' @ [10] @ str ''{"n": 3}'' @ [10]
              @ str ''{"n": 4}'' @ [10] @ str ''{"n": 5}'' @ [10])
   \<and> files (fst (main batch_split_config batch_env [] no_files five_cards)) (part_file 2) = None
   \<and> current_file_index (fst (main batch_split_config batch_env [] no_files five_cards)) = 0
   \<and> current_file_count (fst (main batch_split_config batch_env [] no_files five_cards)) = 5
   \<and> snd (main batch_split_config batch_env [] no_files five_cards) = None\<close>
proof -
  have m: "main batch_split_config batch_env [] no_files five_cards =
             batch_loop out_file 2 5 batch_env 0 five_cards
               (init_state (no_files(out_file \<mapsto> [])))"
    by (subst fresh_run) (simp_all add: default_config_def batch_split_config_def)
  have t: "fst (tag_cards_batch_sync (remote batch_env 0) (random batch_env 0) five_cards 5)
             = Inr (JArr (map numbered [1, 2, 3, 4, 5]))"
    by (intro tag_cards_batch_first batch_answer) (simp add: five_cards_def named_card_keys)
  have k: "take 5 five_cards = five_cards" "drop 5 five_cards = []"
    by (simp_all add: five_cards_def)
  have ne: "five_cards \<noteq> []" by (simp add: five_cards_def)
  have b: \<open>batch_loop out_file 2 5 batch_env 0 five_cards
             (init_state (no_files(out_file \<mapsto> []))) =
           (\<lparr>files = no_files(out_file \<mapsto>
                str ''{"n": 1}'' @ [10] @ str ''{"n": 2}'' @ [10] @ str ''{"n": 3}'' @ [10]
                @ str ''{"n": 4}'' @ [10] @ str ''{"n": 5}'' @ [10]),
             successful_count = 5, current_file_index = 0, current_file_count = 5,
             progress = 1\<rparr>, None)\<close>
    by (subst batch_loop_more [OF ne])
       (simp_all add: k t py_iter_def truthy_numbered sink_eval2 output_names dumps_numbered)
  show ?thesis
    unfolding m b by (simp add: part_files_distinct [symmetric] no_files_def)
qed


subsection \<open>Restarting\<close>

text \<open>
  Claim C6, at the input where the code departs from it: two runs in a row with resume
  disabled, threshold 2 and the same five cards.  The second run empties only the base
  output file; the split files still hold the records of the first run, and the second
  run appends the same records to them again.
\<close>

theorem stale_part_files:
  \<open>\<not> resume split_config
   \<and> snd (main split_config numbered_env [] no_files five_cards) = None
   \<and> files (fst (main split_config numbered_env []
                   (files (fst (main split_config numbered_env [] no_files five_cards)))
                   five_cards)) out_file
      = Some (str ''{"n": 1}'' @ [10] @ str ''{"n": 2}'' @ [10])
   \<and> files (fst (main split_config numbered_env []
                   (files (fst (main split_config numbered_env [] no_files five_cards)))
                   five_cards)) (part_file 2)
      = Some (str ''{"n": 3}'' @ [10] @ str ''{"n": 4}'' @ [10]
              @ str ''{"n": 3}'' @ [10] @ str ''{"n": 4}'' @ [10])
   \<and> files (fst (main split_config numbered_env []
                   (files (fst (main split_config numbered_env [] no_files five_cards)))
                   five_cards)) (part_file 3)
      = Some (str ''{"n": 5}'' @ [10] @ str ''{"n": 5}'' @ [10])\<close>
proof -
  let ?f1 = "files (fst (main split_config numbered_env [] no_files five_cards))"
  note r1 = sequential_split_run [of no_files]
  note r2 = sequential_split_run [of ?f1]
  have o: "old_text no_files p = []" for p by (simp add: old_text_def no_files_def)
  from r1 have o2: \<open>old_text ?f1 (part_file 2) = str ''{"n": 3}'' @ [10] @ str ''{"n": 4}'' @ [10]\<close>
    and o3: \<open>old_text ?f1 (part_file 3) = str ''{"n": 5}'' @ [10]\<close>
    unfolding o by (simp_all add: old_text_def)
  have n: "\<not> resume split_config" by (simp add: split_config_def default_config_def)
  from r1 r2 n show ?thesis unfolding o2 o3 by simp
qed

subsection \<open>The output store\<close>



lemma files_switch [simp]: "files (switch_file n s) = files s"
  by (simp add: switch_file_def)












end
